theory Spec2Isabelle
  imports Main "HOL-Library.Sublist"
begin

section \<open>Strings of the bot\<close>

text \<open>
  A JavaScript string is modelled as a \<^typ>\<open>string\<close> whose characters are read as the
  code units U+0000 to U+00FF. On that range \<open>String.prototype.toLowerCase\<close> maps
  \<open>A\<close>-\<open>Z\<close> and the accented capitals U+00C0-U+00DE (without the multiplication sign
  U+00D7) to the letter 32 places further on, and \<open>String.prototype.trim\<close> removes the
  white space and line terminator characters TAB, LF, VT, FF, CR, SPACE and NBSP from both
  ends.
\<close>

definition toLowerCase_char :: "char \<Rightarrow> char" where
  "toLowerCase_char c =
     (let n = (of_char c :: nat)
      in if (65 \<le> n \<and> n \<le> 90) \<or> (192 \<le> n \<and> n \<le> 222 \<and> n \<noteq> 215)
         then char_of (n + 32) else c)"

definition toLowerCase :: "string \<Rightarrow> string" where
  "toLowerCase s = map toLowerCase_char s"

definition isWhiteSpace :: "char \<Rightarrow> bool" where
  "isWhiteSpace c = ((of_char c :: nat) \<in> {9, 10, 11, 12, 13, 32, 160})"

definition trim :: "string \<Rightarrow> string" where
  "trim s = rev (dropWhile isWhiteSpace (rev (dropWhile isWhiteSpace s)))"

text \<open>A string that lower-casing and trimming leave as it is.\<close>

definition normalized :: "string \<Rightarrow> bool" where
  "normalized k \<longleftrightarrow> toLowerCase k = k \<and> trim k = k"

text \<open>\<open>s.startsWith(p)\<close>, and \<open>s.includes(k)\<close> as \<open>includes_str s k\<close>: \<open>k\<close> occurs in \<open>s\<close>
  as a substring.\<close>

fun startsWith :: "string \<Rightarrow> string \<Rightarrow> bool" where
  "startsWith s [] = True"
| "startsWith [] (p # ps) = False"
| "startsWith (c # s) (p # ps) = (c = p \<and> startsWith s ps)"

fun includes_str :: "string \<Rightarrow> string \<Rightarrow> bool" where
  "includes_str [] k = (k = [])"
| "includes_str (c # s) k = (startsWith (c # s) k \<or> includes_str s k)"

text \<open>
  A value that may be \<open>undefined\<close> (or \<open>null\<close>) is an option; a string value is truthy
  when it is defined and not the empty string.
\<close>

definition truthy :: "string option \<Rightarrow> bool" where
  "truthy v = (case v of None \<Rightarrow> False | Some s \<Rightarrow> s \<noteq> [])"

text \<open>\<open>n.toString()\<close> for a non-negative integer: its decimal digits.\<close>

definition digit_char :: "nat \<Rightarrow> char" where
  "digit_char d = char_of (48 + d)"

function toString_nat :: "nat \<Rightarrow> string" where
  "toString_nat n = (if n < 10 then [digit_char n] else toString_nat (n div 10) @ [digit_char (n mod 10)])"
  by pat_completeness auto
termination
  by (relation "measure (\<lambda>n. n)") auto

section \<open>The keyword table: a JavaScript Map\<close>

text \<open>
  \<open>this.responses\<close> is a \<open>Map\<close> from normalized keyword to reply. A Map iterates in
  insertion order, and \<open>set\<close> on a key already present replaces the value where the key
  stands; so the contents are an association list in insertion order.
\<close>

type_synonym table = "(string \<times> string) list"

definition Map_get :: "table \<Rightarrow> string \<Rightarrow> string option" where
  "Map_get t k = map_of t k"

fun Map_set :: "string \<Rightarrow> string \<Rightarrow> table \<Rightarrow> table" where
  "Map_set k v [] = [(k, v)]"
| "Map_set k v ((k', v') # t) = (if k' = k then (k, v) # t else (k', v') # Map_set k v t)"

section \<open>Configuration, messages, chats\<close>

record groupSettings =
  respondToAll :: bool
  respondOnlyWhenMentioned :: bool
  adminOnly :: bool
  allowedGroups :: "string list"
  sendDefaultReplyInGroups :: bool
  maxGroupMessages :: nat

record config =
  hasHeader :: bool
  defaultReply :: "string option"
  groupSettings :: groupSettings
  caseSensitive :: bool
  partialMatch :: bool

record message =
  msg_from :: string
  fromMe :: bool
  body :: string
  mentionedIds :: "string list"
  author :: string

record participant =
  participant_id :: string
  isAdmin :: bool

record chat =
  isGroup :: bool
  chat_name :: string
  chat_id :: string
  participants :: "participant list"

record contact =
  contact_name :: "string option"
  pushname :: "string option"
  number :: string

text \<open>What \<open>new Date()\<close> renders to in \<open>processDynamicContent\<close>.\<close>

record clock =
  toLocaleTimeString :: string
  toLocaleDateString :: string

section \<open>The bot object and the object store\<close>

text \<open>
  The constructor creates one Map and stores a reference to it in \<open>this.responses\<close>; no
  method assigns the field again. The store maps a reference to the contents of the Map it
  denotes, so that mutation in place and replacement by a new object are different things.
\<close>

type_synonym addr = nat

record bot =
  config :: config
  responses :: addr
  heap :: "addr \<Rightarrow> table"

definition this_responses :: "bot \<Rightarrow> table" where
  "this_responses st = heap st (responses st)"

definition Map_clear_at :: "addr \<Rightarrow> (addr \<Rightarrow> table) \<Rightarrow> (addr \<Rightarrow> table)" where
  "Map_clear_at a h = h(a := [])"

definition Map_set_at :: "addr \<Rightarrow> string \<Rightarrow> string \<Rightarrow> (addr \<Rightarrow> table) \<Rightarrow> (addr \<Rightarrow> table)" where
  "Map_set_at a k v h = h(a := Map_set k v (h a))"

section \<open>loadResponses\<close>

text \<open>
  A row of the sheet is a list of cells; \<open>const [keyword, reply] = rows[i]\<close> reads the
  first two, \<open>undefined\<close> where the row is shorter.
\<close>

type_synonym row = "string list"

definition cell :: "row \<Rightarrow> nat \<Rightarrow> string option" where
  "cell r i = (if i < length r then Some (r ! i) else None)"

text \<open>The body of the \<open>for\<close> loop, lines 58-61, and the loop over the rows from \<open>startRow\<close>.\<close>

definition load_row :: "addr \<Rightarrow> row \<Rightarrow> (addr \<Rightarrow> table) \<Rightarrow> (addr \<Rightarrow> table)" where
  "load_row a r h =
     (case (cell r 0, cell r 1) of
        (Some keyword, Some reply) \<Rightarrow>
          if keyword \<noteq> [] \<and> reply \<noteq> []
          then Map_set_at a (trim (toLowerCase keyword)) (trim reply) h
          else h
      | _ \<Rightarrow> h)"

fun load_rows :: "addr \<Rightarrow> row list \<Rightarrow> (addr \<Rightarrow> table) \<Rightarrow> (addr \<Rightarrow> table)" where
  "load_rows a [] h = h"
| "load_rows a (r # rs) h = load_rows a rs (load_row a r h)"

text \<open>
  The answer of the awaited \<open>spreadsheets.values.get\<close>: the promise is rejected, or it
  resolves to a response whose \<open>data.values\<close> is a list of rows or is missing.
\<close>

datatype fetch_result = Rejected string | Resolved "row list option"

text \<open>The \<open>try\<close> block: \<open>Inl\<close> is an exception that leaves it.\<close>

definition loadResponses_try :: "fetch_result \<Rightarrow> bot \<Rightarrow> string + bot" where
  "loadResponses_try response st =
     (case response of
        Rejected error \<Rightarrow> Inl error
      | Resolved None \<Rightarrow> Inr st
      | Resolved (Some rows) \<Rightarrow>
          if length rows > 0
          then (let startRow = (if hasHeader (config st) then 1 else 0)
                in Inr (st\<lparr>heap := load_rows (responses st) (drop startRow rows)
                                     (Map_clear_at (responses st) (heap st))\<rparr>))
          else Inr st)"

text \<open>The \<open>catch\<close> clause logs the error and the method returns normally.\<close>

definition loadResponses :: "fetch_result \<Rightarrow> bot \<Rightarrow> bot" where
  "loadResponses response st =
     (case loadResponses_try response st of Inl error \<Rightarrow> st | Inr st' \<Rightarrow> st')"

definition addResponse :: "string \<Rightarrow> string \<Rightarrow> bot \<Rightarrow> bot" where
  "addResponse keyword reply st =
     st\<lparr>heap := Map_set_at (responses st) (trim (toLowerCase keyword)) (trim reply) (heap st)\<rparr>"

definition getResponses :: "bot \<Rightarrow> table" where
  "getResponses st = this_responses st"

section \<open>The group gate\<close>

definition shouldRespondInGroup :: "groupSettings \<Rightarrow> chat \<Rightarrow> message \<Rightarrow> bool" where
  "shouldRespondInGroup gs c m =
     (if respondOnlyWhenMentioned gs then length (mentionedIds m) > 0
      else if length (allowedGroups gs) > 0 then chat_id c \<in> set (allowedGroups gs)
      else if adminOnly gs then
        (case find (\<lambda>p. participant_id p = author m) (participants c) of
           None \<Rightarrow> False
         | Some p \<Rightarrow> isAdmin p)
      else respondToAll gs)"

definition shouldSendDefaultReply :: "groupSettings \<Rightarrow> chat \<Rightarrow> bool" where
  "shouldSendDefaultReply gs c = (if isGroup c then sendDefaultReplyInGroups gs else True)"

section \<open>Looking a reply up\<close>

text \<open>
  Lines 125-136 of \<open>handleMessage\<close>: the value of the variable \<open>reply\<close> when line 138 is
  reached. The \<open>for\<close> loop over \<open>this.responses.entries()\<close> stops at the first entry whose
  keyword the message body includes; when it finds none, \<open>reply\<close> keeps the value that
  \<open>get\<close> gave it.
\<close>

fun partial_scan :: "table \<Rightarrow> string \<Rightarrow> string option" where
  "partial_scan [] messageBody = None"
| "partial_scan ((keyword, response) # es) messageBody =
     (if includes_str messageBody keyword then Some response else partial_scan es messageBody)"

definition lookupReply :: "table \<Rightarrow> string \<Rightarrow> string option" where
  "lookupReply t messageBody =
     (let reply = Map_get t messageBody
      in if \<not> truthy reply
         then (case partial_scan t messageBody of Some response \<Rightarrow> Some response | None \<Rightarrow> reply)
         else reply)"

section \<open>processDynamicContent\<close>

text \<open>
  \<open>s.replace(new RegExp(placeholder, 'g'), value)\<close>. Each of the seven placeholders is,
  as a regular expression, the literal text of the placeholder (a brace that does not open a
  quantifier stands for itself), so the matches are the occurrences of the placeholder from
  left to right, none overlapping another. The replacement is a string, so every match is
  replaced by \<open>GetSubstitution\<close> of the value: \<open>$$\<close> stands for a dollar sign, \<open>$&\<close> for
  the matched text, \<open>$`\<close> for the text before the match and \<open>$'\<close> for the text after it;
  with no capture group in the pattern every other dollar sign stands for itself.
\<close>

fun getSubstitution :: "string \<Rightarrow> string \<Rightarrow> string \<Rightarrow> string \<Rightarrow> string" where
  "getSubstitution matched before after [] = []"
| "getSubstitution matched before after [c] = [c]"
| "getSubstitution matched before after (c # d # r) =
     (if c = CHR 0x24 then
        (if d = CHR 0x24 then CHR 0x24 # getSubstitution matched before after r
         else if d = CHR 0x26 then matched @ getSubstitution matched before after r
         else if d = CHR 0x60 then before @ getSubstitution matched before after r
         else if d = CHR 0x27 then after @ getSubstitution matched before after r
         else c # getSubstitution matched before after (d # r))
      else c # getSubstitution matched before after (d # r))"

text \<open>
  \<open>replace_from placeholder value before s\<close> rewrites the rest \<open>s\<close> of a string whose
  part already scanned is \<open>before\<close>. The placeholder is not empty.
\<close>

fun replace_from :: "string \<Rightarrow> string \<Rightarrow> string \<Rightarrow> string \<Rightarrow> string" where
  "replace_from placeholder val before [] = []"
| "replace_from placeholder val before (c # s) =
     (if startsWith (c # s) placeholder
      then getSubstitution placeholder before (drop (length placeholder - 1) s) val
           @ replace_from placeholder val (before @ placeholder) (drop (length placeholder - 1) s)
      else c # replace_from placeholder val (before @ [c]) s)"

definition replace_global :: "string \<Rightarrow> string \<Rightarrow> string \<Rightarrow> string" where
  "replace_global placeholder val s = replace_from placeholder val [] s"

text \<open>\<open>a || b\<close> on values that may be undefined.\<close>

definition js_or :: "string option \<Rightarrow> string option \<Rightarrow> string option" where
  "js_or a b = (if truthy a then a else b)"

definition replacements :: "clock \<Rightarrow> contact \<Rightarrow> message \<Rightarrow> chat \<Rightarrow> (string \<times> string) list" where
  "replacements now ct m c =
     [(''{name}'', (case js_or (js_or (contact_name ct) (pushname ct)) (Some ''there'') of
                      Some n \<Rightarrow> n | None \<Rightarrow> ''undefined'')),
      (''{time}'', toLocaleTimeString now),
      (''{date}'', toLocaleDateString now),
      (''{phone}'', number ct),
      (''{message}'', body m),
      (''{group}'', if isGroup c then chat_name c else ''Direct Message''),
      (''{memberCount}'', if isGroup c then toString_nat (length (participants c)) else ''1'')]"

definition processDynamicContent :: "clock \<Rightarrow> string \<Rightarrow> contact \<Rightarrow> message \<Rightarrow> chat \<Rightarrow> string" where
  "processDynamicContent now reply ct m c =
     fold (\<lambda>(placeholder, val) processedReply. replace_global placeholder val processedReply)
          (replacements now ct m c) reply"

section \<open>handleMessage\<close>

text \<open>
  What \<open>handleMessage\<close> does with a message: it replies with the expanded keyword reply
  (line 143), it replies with the default reply (line 146), or it sends nothing; the ways of
  sending nothing are told apart by the place where the method stops. The contact and the
  chat that the awaited \<open>getContact\<close> and \<open>getChat\<close> deliver are arguments, as is the
  clock; the outcome is what the method hands to \<open>message.reply\<close>.
\<close>

datatype skipped = StatusBroadcast | FromSelf | NotInGroupScope | NoMatchNoDefault

datatype outcome = Replied string | DefaultReplied string | Skipped skipped

text \<open>Lines 145-148, reached when \<open>reply\<close> is not truthy.\<close>

definition sendDefault :: "bot \<Rightarrow> chat \<Rightarrow> outcome" where
  "sendDefault st c =
     (case defaultReply (config st) of
        None \<Rightarrow> Skipped NoMatchNoDefault
      | Some d \<Rightarrow>
          if d \<noteq> [] \<and> shouldSendDefaultReply (groupSettings (config st)) c
          then DefaultReplied d
          else Skipped NoMatchNoDefault)"

definition handleMessage :: "bot \<Rightarrow> clock \<Rightarrow> message \<Rightarrow> contact \<Rightarrow> chat \<Rightarrow> outcome" where
  "handleMessage st now m ct c =
     (if msg_from m = ''status@broadcast'' then Skipped StatusBroadcast
      else if fromMe m then Skipped FromSelf
      else
        (let messageBody = trim (toLowerCase (body m))
         in if isGroup c \<and> \<not> shouldRespondInGroup (groupSettings (config st)) c m
            then Skipped NotInGroupScope
            else
              (case lookupReply (this_responses st) messageBody of
                 None \<Rightarrow> sendDefault st c
               | Some reply \<Rightarrow>
                   if reply \<noteq> []
                   then Replied (processDynamicContent now reply ct m c)
                   else sendDefault st c)))"

section \<open>The specification's gate and rebuild\<close>

text \<open>
  The specification names four policy modes and a precedence among them. In the code a mode
  is set by its toggle; the allow-list mode has no toggle of its own and is set by a
  non-empty \<open>allowedGroups\<close>. \<open>spec_gate\<close> evaluates the first mode of the precedence
  whose toggle is set, each mode by the rule of its branch in \<open>shouldRespondInGroup\<close>.
\<close>

datatype policy_mode = MentionOnly | AllowListOnly | AdminOnly | RespondToAll

definition precedence :: "policy_mode list" where
  "precedence = [MentionOnly, AllowListOnly, AdminOnly, RespondToAll]"

fun toggle_set :: "groupSettings \<Rightarrow> policy_mode \<Rightarrow> bool" where
  "toggle_set gs MentionOnly = respondOnlyWhenMentioned gs"
| "toggle_set gs AllowListOnly = (allowedGroups gs \<noteq> [])"
| "toggle_set gs AdminOnly = adminOnly gs"
| "toggle_set gs RespondToAll = respondToAll gs"

definition author_is_admin :: "chat \<Rightarrow> message \<Rightarrow> bool" where
  "author_is_admin c m =
     (case find (\<lambda>p. participant_id p = author m) (participants c) of
        None \<Rightarrow> False
      | Some p \<Rightarrow> isAdmin p)"

fun mode_allows :: "groupSettings \<Rightarrow> chat \<Rightarrow> message \<Rightarrow> policy_mode \<Rightarrow> bool" where
  "mode_allows gs c m MentionOnly = (mentionedIds m \<noteq> [])"
| "mode_allows gs c m AllowListOnly = (chat_id c \<in> set (allowedGroups gs))"
| "mode_allows gs c m AdminOnly = author_is_admin c m"
| "mode_allows gs c m RespondToAll = True"

definition spec_gate :: "groupSettings \<Rightarrow> chat \<Rightarrow> message \<Rightarrow> bool" where
  "spec_gate gs c m =
     (case find (toggle_set gs) precedence of
        None \<Rightarrow> False
      | Some md \<Rightarrow> mode_allows gs c m md)"

definition adminIds :: "chat \<Rightarrow> string set" where
  "adminIds c = participant_id ` {p \<in> set (participants c). isAdmin p}"

text \<open>
  The table that a rebuild yields as a function of the rows alone: the rows after the header
  are entered one by one into an empty table, a row without two non-empty cells is skipped,
  and a key entered twice keeps its place and takes the later reply.
\<close>

definition enter_row :: "table \<Rightarrow> row \<Rightarrow> table" where
  "enter_row t r =
     (case r of
        keyword # reply # rest \<Rightarrow>
          if keyword \<noteq> [] \<and> reply \<noteq> []
          then Map_set (trim (toLowerCase keyword)) (trim reply) t
          else t
      | _ \<Rightarrow> t)"

definition rebuild :: "row list \<Rightarrow> bool \<Rightarrow> table" where
  "rebuild rows header = foldl enter_row [] (if header then tl rows else rows)"

section \<open>Sample values\<close>

text \<open>
  A bot as the constructor leaves it, with the configuration object of the file when no
  environment variable is set, and a direct chat, a group, a contact and a clock to run the
  methods on.
\<close>

definition default_groupSettings :: groupSettings where
  "default_groupSettings =
     \<lparr>respondToAll = True, respondOnlyWhenMentioned = False, adminOnly = False,
      allowedGroups = [], sendDefaultReplyInGroups = False, maxGroupMessages = 50\<rparr>"

definition default_config :: config where
  "default_config =
     \<lparr>hasHeader = True, defaultReply = None, groupSettings = default_groupSettings,
      caseSensitive = False, partialMatch = True\<rparr>"

definition new_bot :: "config \<Rightarrow> bot" where
  "new_bot cfg = \<lparr>config = cfg, responses = 0, heap = (\<lambda>a. [])\<rparr>"

definition direct_chat :: chat where
  "direct_chat =
     \<lparr>isGroup = False, chat_name = ''Ann'', chat_id = ''491@c.us'', participants = []\<rparr>"

definition family_group :: chat where
  "family_group =
     \<lparr>isGroup = True, chat_name = ''Family'', chat_id = ''777@g.us'',
      participants = [\<lparr>participant_id = ''491@c.us'', isAdmin = False\<rparr>,
                      \<lparr>participant_id = ''492@c.us'', isAdmin = True\<rparr>]\<rparr>"

definition ann :: contact where
  "ann = \<lparr>contact_name = Some ''Ann'', pushname = None, number = ''491''\<rparr>"

definition noon :: clock where
  "noon = \<lparr>toLocaleTimeString = ''12:00:00 PM'', toLocaleDateString = ''11/1/2026''\<rparr>"

definition message_from_ann :: "string \<Rightarrow> message" where
  "message_from_ann b =
     \<lparr>msg_from = ''491@c.us'', fromMe = False, body = b, mentionedIds = [],
      author = ''491@c.us''\<rparr>"

definition mention_and_all :: groupSettings where
  "mention_and_all = default_groupSettings\<lparr>respondOnlyWhenMentioned := True\<rparr>"

definition case_sensitive_config :: config where
  "case_sensitive_config = default_config\<lparr>caseSensitive := True\<rparr>"

definition config_with_default :: config where
  "config_with_default = default_config\<lparr>defaultReply := Some ''Sorry, try again''\<rparr>"

definition greeting_sheet :: "row list" where
  "greeting_sheet = [[''Keyword'', ''Reply''], [''Hello'', ''Hi!'']]"

definition farewell_sheet :: "row list" where
  "farewell_sheet = [[''Keyword'', ''Reply''], [''bye'', ''Ciao'']]"

definition cat_sheet :: "row list" where
  "cat_sheet = [[''Keyword'', ''Reply''], [''cat'', ''meow'']]"


definition blank_keyword_sheet :: "row list" where
  "blank_keyword_sheet = [[''Keyword'', ''Reply''], [''cat'', ''meow''], ['' '', ''fallback'']]"


definition blank_row_sheet :: "row list" where
  "blank_row_sheet = [[''Keyword'', ''Reply''], ['' '', '' '']]"

text \<open>The test \<open>keyword && reply\<close> of line 59 on a row.\<close>

definition keyword_and_reply :: "row \<Rightarrow> bool" where
  "keyword_and_reply r =
     (case r of keyword # reply # rest \<Rightarrow> keyword \<noteq> [] \<and> reply \<noteq> [] | _ \<Rightarrow> False)"

section \<open>Substrings and the scan\<close>

lemma startsWith_prefix: "startsWith s p \<longleftrightarrow> prefix p s"
  by (induction s p rule: startsWith.induct) auto

lemma includes_str_sublist: "includes_str s k \<longleftrightarrow> sublist k s"
  by (induction s) (auto simp: startsWith_prefix sublist_Cons_right)

lemma includes_str_substring: "includes_str s k \<longleftrightarrow> (\<exists>p q. s = p @ k @ q)"
  by (simp add: includes_str_sublist sublist_def)

lemma includes_str_empty: "includes_str s []"
  by (simp add: includes_str_sublist)

lemma includes_str_self: "includes_str s s"
  by (simp add: includes_str_sublist)


lemma partial_scan_None_iff:
  "partial_scan t b = None \<longleftrightarrow> (\<forall>(k, r) \<in> set t. \<not> includes_str b k)"
  by (induction t) (auto split: if_splits)

lemma exact_match_wins:
  "Map_get t b = Some r \<Longrightarrow> r \<noteq> [] \<Longrightarrow> lookupReply t b = Some r"
  by (simp add: lookupReply_def truthy_def)

section \<open>Exact match\<close>

text \<open>
  C1. An exact match is meant to win over every partial match. \<open>exact_match_wins\<close> shows
  that it does when the reply stored under the key is not empty. The test \<open>!reply\<close> of
  line 129 also holds for a key that is present with the empty reply, which a sheet row with
  a blank reply cell stores: the rows \<open>h, x\<close> and \<open>hi, (one space)\<close> give a table in which
  the body \<open>hi\<close> equals a stored key, and the scan answers it with the reply of the partial
  match \<open>h\<close>.
\<close>

theorem exact_match_blank_reply_lost:
  "Map_get (this_responses (loadResponses
       (Resolved (Some [[''Keyword'', ''Reply''], [''h'', ''x''], [''hi'', '' '']]))
       (new_bot default_config))) ''hi'' = Some []
   \<and> handleMessage (loadResponses
       (Resolved (Some [[''Keyword'', ''Reply''], [''h'', ''x''], [''hi'', '' '']]))
       (new_bot default_config)) noon (message_from_ann ''hi'') ann direct_chat = Replied ''x''"
  by code_simp

section \<open>A failed fetch\<close>

text \<open>
  C7. When the fetch fails, the exception leaves the \<open>try\<close> block before the table is
  touched and the \<open>catch\<close> clause swallows it: the method returns with the bot as it was,
  so the table holds the same entries in the same order, and every message is handled
  afterwards as it would have been before.
\<close>

theorem fetch_failure_keeps_table:
  "loadResponses_try (Rejected e) st = Inl e
   \<and> loadResponses (Rejected e) st = st
   \<and> this_responses (loadResponses (Rejected e) st) = this_responses st
   \<and> handleMessage (loadResponses (Rejected e) st) now m ct c = handleMessage st now m ct c"
  by (simp add: loadResponses_def loadResponses_try_def)

lemma lookupReply_no_match:
  assumes "\<forall>(k, r) \<in> set t. \<not> includes_str b k"
  shows "lookupReply t b = None"
proof -
  have "Map_get t b = None"
  proof (cases "Map_get t b")
    case (Some r)
    then have "(b, r) \<in> set t"
      by (simp add: Map_get_def map_of_SomeD)
    with assms have "\<not> includes_str b b" by blast
    then show ?thesis by (simp add: includes_str_self)
  qed simp
  moreover have "partial_scan t b = None"
    using assms by (simp add: partial_scan_None_iff)
  ultimately show ?thesis
    by (simp add: lookupReply_def truthy_def)
qed

lemma handleMessage_keyword_reply:
  assumes "msg_from m \<noteq> ''status@broadcast''" and "\<not> fromMe m"
    and "isGroup c \<longrightarrow> shouldRespondInGroup (groupSettings (config st)) c m"
    and "lookupReply (this_responses st) (trim (toLowerCase (body m))) = Some r" and "r \<noteq> []"
  shows "handleMessage st now m ct c = Replied (processDynamicContent now r ct m c)"
  using assms by (auto simp: handleMessage_def)

section \<open>Partial match\<close>





section \<open>The rebuild as a function of the rows\<close>

lemma load_row_enter_row: "load_row a r h = h(a := enter_row (h a) r)"
proof (cases r)
  case Nil
  then show ?thesis by (simp add: load_row_def enter_row_def cell_def)
next
  case (Cons keyword r')
  then show ?thesis
    by (cases r') (auto simp: load_row_def enter_row_def cell_def Map_set_at_def)
qed

lemma load_rows_foldl: "load_rows a rs h = h(a := foldl enter_row (h a) rs)"
  by (induction rs arbitrary: h) (simp_all add: load_row_enter_row)

lemma loadResponses_heap:
  "rows \<noteq> [] \<Longrightarrow>
   loadResponses (Resolved (Some rows)) st =
     st\<lparr>heap := (heap st)(responses st := rebuild rows (hasHeader (config st)))\<rparr>"
  by (simp add: loadResponses_def loadResponses_try_def load_rows_foldl Map_clear_at_def
      rebuild_def drop_Suc)

lemma loadResponses_rebuild:
  "rows \<noteq> [] \<Longrightarrow>
   this_responses (loadResponses (Resolved (Some rows)) st) = rebuild rows (hasHeader (config st))"
  by (simp add: loadResponses_heap this_responses_def)

text \<open>
  When every data row has two non-empty cells and no two rows have the same normalized
  keyword, the entries of the rebuilt table stand in the order of the rows.
\<close>

lemma Map_set_fresh: "k \<notin> fst ` set t \<Longrightarrow> Map_set k v t = t @ [(k, v)]"
  by (induction t) auto

lemma foldl_enter_row_fresh:
  assumes "\<forall>r \<in> set rs. \<exists>k v rest. r = k # v # rest \<and> k \<noteq> [] \<and> v \<noteq> []"
    and "distinct (map fst t @ map (\<lambda>r. trim (toLowerCase (hd r))) rs)"
  shows "foldl enter_row t rs
           = t @ map (\<lambda>r. (trim (toLowerCase (hd r)), trim (hd (tl r)))) rs"
  using assms
proof (induction rs arbitrary: t)
  case Nil
  then show ?case by simp
next
  case (Cons r rs)
  from Cons.prems(1) obtain k v rest where r: "r = k # v # rest" "k \<noteq> []" "v \<noteq> []"
    by auto
  from Cons.prems(2) r have fresh: "trim (toLowerCase k) \<notin> fst ` set t"
    by auto
  have step: "enter_row t r = t @ [(trim (toLowerCase k), trim v)]"
    using r fresh by (simp add: enter_row_def Map_set_fresh)
  have "distinct (map fst (enter_row t r) @ map (\<lambda>r. trim (toLowerCase (hd r))) rs)"
    using Cons.prems(2) r step by auto
  with Cons.IH [of "enter_row t r"] Cons.prems(1)
  have "foldl enter_row (enter_row t r) rs
          = enter_row t r @ map (\<lambda>r. (trim (toLowerCase (hd r)), trim (hd (tl r)))) rs"
    by simp
  with step r show ?case by simp
qed

lemma rebuild_row_order:
  assumes "\<forall>r \<in> set rows. \<exists>k v rest. r = k # v # rest \<and> k \<noteq> [] \<and> v \<noteq> []"
    and "distinct (map (\<lambda>r. trim (toLowerCase (hd r))) rows)"
  shows "rebuild rows False = map (\<lambda>r. (trim (toLowerCase (hd r)), trim (hd (tl r)))) rows"
  using foldl_enter_row_fresh [of rows "[]"] assms by (simp add: rebuild_def)

section \<open>Normalized keys\<close>

lemma toLowerCase_char_idem: "toLowerCase_char (toLowerCase_char c) = toLowerCase_char c"
  by (simp add: toLowerCase_char_def Let_def)

lemma isWhiteSpace_toLowerCase_char: "isWhiteSpace (toLowerCase_char c) = isWhiteSpace c"
  by (simp add: toLowerCase_char_def Let_def isWhiteSpace_def)

lemma set_trim: "set (trim s) \<subseteq> set s"
  unfolding trim_def by (auto dest!: set_dropWhileD)

lemma trim_idem: "trim (trim s) = trim s"
  unfolding trim_def
  by (metis (no_types, lifting) ext Nil_is_rev_conv dropWhile_eq_Nil_conv
    dropWhile_eq_self_iff dropWhile_last hd_dropWhile last_rev rev_swap)

lemma toLowerCase_trim_toLowerCase:
  "toLowerCase (trim (toLowerCase s)) = trim (toLowerCase s)"
proof -
  have "\<forall>c \<in> set (trim (toLowerCase s)). toLowerCase_char c = c"
    using set_trim [of "toLowerCase s"] by (auto simp: toLowerCase_def toLowerCase_char_idem)
  then show ?thesis
    unfolding toLowerCase_def [of "trim _"] by (simp add: map_idI)
qed

lemma normalized_key: "normalized (trim (toLowerCase s))"
  by (simp add: normalized_def toLowerCase_trim_toLowerCase trim_idem)

lemma keys_Map_set: "fst ` set (Map_set k v t) = insert k (fst ` set t)"
  by (induction t) force+

lemma keys_enter_row:
  "k \<in> fst ` set (enter_row t r) \<Longrightarrow> k \<in> fst ` set t \<or> normalized k"
  by (auto simp: enter_row_def keys_Map_set normalized_key split: list.splits if_splits)

lemma keys_foldl_enter_row:
  "k \<in> fst ` set (foldl enter_row t rs) \<Longrightarrow> k \<in> fst ` set t \<or> normalized k"
proof (induction rs arbitrary: t)
  case Nil
  then show ?case by simp
next
  case (Cons r rs)
  from Cons.IH [of "enter_row t r"] Cons.prems
  have "k \<in> fst ` set (enter_row t r) \<or> normalized k" by simp
  then show ?case using keys_enter_row by blast
qed

lemma keys_rebuild: "(k, v) \<in> set (rebuild rows header) \<Longrightarrow> normalized k"
proof -
  assume "(k, v) \<in> set (rebuild rows header)"
  then have "k \<in> fst ` set (rebuild rows header)" by force
  then show ?thesis
    using keys_foldl_enter_row [of k "[]"] by (simp add: rebuild_def)
qed

lemma Map_get_Map_set: "Map_get (Map_set k v t) k = Some v"
  by (induction t) (auto simp: Map_get_def)

lemma keys_enter_row_eq:
  "fst ` set (enter_row t r) =
     (if keyword_and_reply r then insert (trim (toLowerCase (hd r))) (fst ` set t)
      else fst ` set t)"
  by (auto simp: enter_row_def keyword_and_reply_def keys_Map_set split: list.splits)

lemma keys_foldl_enter_row_eq:
  "fst ` set (foldl enter_row t rs) =
     fst ` set t \<union> set (map (\<lambda>row. trim (toLowerCase (hd row))) (filter keyword_and_reply rs))"
proof (induction rs arbitrary: t)
  case Nil
  then show ?case by simp
next
  case (Cons r rs)
  show ?case
    unfolding foldl_Cons Cons.IH [of "enter_row t r"] keys_enter_row_eq by auto
qed

lemma keys_rebuild_eq:
  "fst ` set (rebuild rows header) =
     set (map (\<lambda>row. trim (toLowerCase (hd row)))
            (filter keyword_and_reply (if header then tl rows else rows)))"
  by (simp add: rebuild_def keys_foldl_enter_row_eq)

lemma addResponse_table:
  "this_responses (addResponse kw rp st)
     = Map_set (trim (toLowerCase kw)) (trim rp) (this_responses st)"
  by (simp add: addResponse_def this_responses_def Map_set_at_def)

section \<open>Case folding\<close>

text \<open>
  C3, as stated: with \<open>caseSensitive\<close> true a stored keyword \<open>Hello\<close> does not match the
  body \<open>hello\<close>. It does: no method reads \<open>caseSensitive\<close>, the keyword is stored as
  \<open>hello\<close>, and the message is answered with its reply.
\<close>

theorem caseSensitive_true_still_folds:
  "caseSensitive (config (new_bot case_sensitive_config))
   \<and> this_responses (loadResponses (Resolved (Some greeting_sheet)) (new_bot case_sensitive_config))
       = [(''hello'', ''Hi!'')]
   \<and> handleMessage (loadResponses (Resolved (Some greeting_sheet)) (new_bot case_sensitive_config))
       noon (message_from_ann ''hello'') ann direct_chat = Replied ''Hi!''"
  by code_simp

text \<open>
  C3, amended: whatever \<open>caseSensitive\<close> is set to, keywords and message bodies are
  lower-cased and then trimmed. Setting the option changes neither the table that
  \<open>loadResponses\<close> or \<open>addResponse\<close> leaves nor what \<open>handleMessage\<close> does. The keys
  of a rebuilt table are the lower-cased and trimmed keyword cells of the rows that are not
  skipped, so each of them is lower-cased and trimmed; \<open>addResponse\<close> stores the trimmed
  reply under the lower-cased and trimmed keyword; and a message that reaches the lookup is
  answered from the entry whose key equals its lower-cased and trimmed body, when that entry
  holds a reply that is not empty. So a keyword \<open>Hello\<close> matches the body \<open>hello\<close> with
  \<open>caseSensitive\<close> true as well.
\<close>

theorem normalization_ignores_caseSensitive:
  "this_responses (loadResponses r (st\<lparr>config := (config st)\<lparr>caseSensitive := cs\<rparr>\<rparr>))
     = this_responses (loadResponses r st)
   \<and> this_responses (addResponse kw rp (st\<lparr>config := (config st)\<lparr>caseSensitive := cs\<rparr>\<rparr>))
     = this_responses (addResponse kw rp st)
   \<and> handleMessage (st\<lparr>config := (config st)\<lparr>caseSensitive := cs\<rparr>\<rparr>) now m ct c
     = handleMessage st now m ct c
   \<and> (rows \<noteq> [] \<longrightarrow>
        (\<forall>(k, v) \<in> set (this_responses (loadResponses (Resolved (Some rows)) st)).
           toLowerCase k = k \<and> trim k = k))
   \<and> (rows \<noteq> [] \<longrightarrow>
        fst ` set (this_responses (loadResponses (Resolved (Some rows)) st))
          = set (map (\<lambda>row. trim (toLowerCase (hd row)))
                  (filter keyword_and_reply (if hasHeader (config st) then tl rows else rows))))
   \<and> this_responses (addResponse kw rp st)
       = Map_set (trim (toLowerCase kw)) (trim rp) (this_responses st)
   \<and> Map_get (this_responses (addResponse kw rp st)) (trim (toLowerCase kw)) = Some (trim rp)
   \<and> (msg_from m \<noteq> ''status@broadcast'' \<and> \<not> fromMe m
        \<and> (isGroup c \<longrightarrow> shouldRespondInGroup (groupSettings (config st)) c m)
        \<and> Map_get (this_responses st) (trim (toLowerCase (body m))) = Some reply
        \<and> reply \<noteq> []
        \<longrightarrow> handleMessage st now m ct c = Replied (processDynamicContent now reply ct m c))"
proof -
  have f1: "this_responses (loadResponses r (st\<lparr>config := (config st)\<lparr>caseSensitive := cs\<rparr>\<rparr>))
          = this_responses (loadResponses r st)"
    by (cases r)
      (auto simp: loadResponses_def loadResponses_try_def this_responses_def split: option.splits)
  have f2: "this_responses (addResponse kw rp (st\<lparr>config := (config st)\<lparr>caseSensitive := cs\<rparr>\<rparr>))
          = this_responses (addResponse kw rp st)"
    by (simp add: addResponse_def this_responses_def)
  have "sendDefault (st\<lparr>config := (config st)\<lparr>caseSensitive := cs\<rparr>\<rparr>) c = sendDefault st c"
    by (simp add: sendDefault_def split: option.splits)
  then have f3: "handleMessage (st\<lparr>config := (config st)\<lparr>caseSensitive := cs\<rparr>\<rparr>) now m ct c
          = handleMessage st now m ct c"
    by (simp add: handleMessage_def this_responses_def split: option.splits)
  have f4: "rows \<noteq> [] \<longrightarrow>
        (\<forall>(k, v) \<in> set (this_responses (loadResponses (Resolved (Some rows)) st)).
           toLowerCase k = k \<and> trim k = k)"
    using keys_rebuild [of _ _ rows "hasHeader (config st)"]
    by (auto simp: loadResponses_rebuild normalized_def)
  have f5: "rows \<noteq> [] \<longrightarrow>
        fst ` set (this_responses (loadResponses (Resolved (Some rows)) st))
          = set (map (\<lambda>row. trim (toLowerCase (hd row)))
                  (filter keyword_and_reply (if hasHeader (config st) then tl rows else rows)))"
  proof
    assume "rows \<noteq> []"
    then have "this_responses (loadResponses (Resolved (Some rows)) st)
                 = rebuild rows (hasHeader (config st))"
      by (rule loadResponses_rebuild)
    then show "fst ` set (this_responses (loadResponses (Resolved (Some rows)) st))
          = set (map (\<lambda>row. trim (toLowerCase (hd row)))
                  (filter keyword_and_reply (if hasHeader (config st) then tl rows else rows)))"
      by (simp only: keys_rebuild_eq)
  qed
  have f6: "this_responses (addResponse kw rp st)
          = Map_set (trim (toLowerCase kw)) (trim rp) (this_responses st)"
    by (simp add: addResponse_def this_responses_def Map_set_at_def)
  have f7: "Map_get (this_responses (addResponse kw rp st)) (trim (toLowerCase kw)) = Some (trim rp)"
    by (simp add: addResponse_def this_responses_def Map_set_at_def Map_get_Map_set)
  have f8: "msg_from m \<noteq> ''status@broadcast'' \<and> \<not> fromMe m
        \<and> (isGroup c \<longrightarrow> shouldRespondInGroup (groupSettings (config st)) c m)
        \<and> Map_get (this_responses st) (trim (toLowerCase (body m))) = Some reply
        \<and> reply \<noteq> []
        \<longrightarrow> handleMessage st now m ct c = Replied (processDynamicContent now reply ct m c)"
  proof
    assume g: "msg_from m \<noteq> ''status@broadcast'' \<and> \<not> fromMe m
        \<and> (isGroup c \<longrightarrow> shouldRespondInGroup (groupSettings (config st)) c m)
        \<and> Map_get (this_responses st) (trim (toLowerCase (body m))) = Some reply
        \<and> reply \<noteq> []"
    then have "lookupReply (this_responses st) (trim (toLowerCase (body m))) = Some reply"
      by (simp add: exact_match_wins)
    with g show "handleMessage st now m ct c = Replied (processDynamicContent now reply ct m c)"
      by (auto simp: handleMessage_def)
  qed
  show ?thesis
    by (intro conjI) (rule f1 f2 f3 f4 f5 f6 f7 f8)+
qed

theorem normalization_ignores_caseSensitive_witness:
  "caseSensitive (config (new_bot case_sensitive_config))
   \<and> ''hello'' \<in> fst ` set (this_responses
        (loadResponses (Resolved (Some greeting_sheet)) (new_bot case_sensitive_config)))
   \<and> handleMessage (loadResponses (Resolved (Some greeting_sheet)) (new_bot case_sensitive_config))
        noon (message_from_ann ''  HELLO '') ann direct_chat = Replied ''Hi!''
   \<and> Map_get (this_responses (addResponse ''Bye '' ''See ya'' (new_bot case_sensitive_config)))
        ''bye'' = Some ''See ya''"
proof -
  let ?fresh = "new_bot case_sensitive_config"
  let ?st = "loadResponses (Resolved (Some greeting_sheet)) ?fresh"
  let ?m = "message_from_ann ''  HELLO ''"
  have cs: "caseSensitive (config ?fresh)" by code_simp
  have rows: "greeting_sheet \<noteq> []"
    by (simp add: greeting_sheet_def)
  have key: "''hello'' \<in> set (map (\<lambda>row. trim (toLowerCase (hd row)))
                  (filter keyword_and_reply
                     (if hasHeader (config ?fresh) then tl greeting_sheet else greeting_sheet)))"
    by code_simp
  note rebuilt = normalization_ignores_caseSensitive
         [where rows = greeting_sheet and st = ?fresh and r = "Rejected []" and cs = True
            and kw = "''Bye ''" and rp = "''See ya''" and now = noon and m = ?m and ct = ann
            and c = direct_chat and reply = "''Hi!''"]
  from rows
  have "fst ` set (this_responses ?st)
          = set (map (\<lambda>row. trim (toLowerCase (hd row)))
                  (filter keyword_and_reply
                     (if hasHeader (config ?fresh) then tl greeting_sheet else greeting_sheet)))"
    by (rule rebuilt [THEN conjunct2, THEN conjunct2, THEN conjunct2, THEN conjunct2,
                      THEN conjunct1, THEN mp])
  with key have stored: "''hello'' \<in> fst ` set (this_responses ?st)"
    by simp
  have n: "trim (toLowerCase ''Bye '') = ''bye'' \<and> trim ''See ya'' = ''See ya''"
    by code_simp
  have "Map_get (this_responses (addResponse ''Bye '' ''See ya'' ?fresh)) (trim (toLowerCase ''Bye ''))
          = Some (trim ''See ya'')"
    by (rule rebuilt [THEN conjunct2, THEN conjunct2, THEN conjunct2, THEN conjunct2,
                      THEN conjunct2, THEN conjunct2, THEN conjunct1])
  with n have added: "Map_get (this_responses (addResponse ''Bye '' ''See ya'' ?fresh)) ''bye''
          = Some ''See ya''"
    by simp
  have guards: "msg_from ?m \<noteq> ''status@broadcast'' \<and> \<not> fromMe ?m
        \<and> (isGroup direct_chat \<longrightarrow> shouldRespondInGroup (groupSettings (config ?st)) direct_chat ?m)
        \<and> Map_get (this_responses ?st) (trim (toLowerCase (body ?m))) = Some ''Hi!''
        \<and> ''Hi!'' \<noteq> []"
    by code_simp
  have e: "processDynamicContent noon ''Hi!'' ann ?m direct_chat = ''Hi!''"
    by code_simp
  note matched = normalization_ignores_caseSensitive
         [where rows = greeting_sheet and st = ?st and r = "Rejected []" and cs = True
            and kw = "''Bye ''" and rp = "''See ya''" and now = noon and m = ?m and ct = ann
            and c = direct_chat and reply = "''Hi!''"]
  from guards
  have "handleMessage ?st noon ?m ann direct_chat
          = Replied (processDynamicContent noon ''Hi!'' ann ?m direct_chat)"
    by (rule matched [THEN conjunct2, THEN conjunct2, THEN conjunct2, THEN conjunct2,
                      THEN conjunct2, THEN conjunct2, THEN conjunct2, THEN mp])
  with e have answered: "handleMessage ?st noon ?m ann direct_chat = Replied ''Hi!''"
    by simp
  from cs stored answered added show ?thesis by (intro conjI)
qed

section \<open>The group gate\<close>

text \<open>
  C4, as stated: with an empty allow-list the gate denies every group message. The
  configuration of the file has an empty allow-list, and under it the gate allows a group
  message: the allow-list branch is guarded by \<open>allowedGroups.length > 0\<close>, and an empty
  list leads on to the later branches.
\<close>

theorem empty_allow_list_responds:
  "allowedGroups default_groupSettings = []
   \<and> shouldRespondInGroup default_groupSettings family_group (message_from_ann ''hello'')"
  by code_simp

text \<open>
  C4, amended: with an empty allow-list the allow-list rule is not evaluated; the gate
  answers by the mention rule when \<open>respondOnlyWhenMentioned\<close> is set, else by the admin
  rule when \<open>adminOnly\<close> is set, else with \<open>respondToAll\<close>.
\<close>

theorem empty_allow_list_falls_through:
  "allowedGroups gs = [] \<Longrightarrow>
   shouldRespondInGroup gs c m =
     (if respondOnlyWhenMentioned gs then mentionedIds m \<noteq> []
      else if adminOnly gs then author_is_admin c m
      else respondToAll gs)"
  by (simp add: shouldRespondInGroup_def author_is_admin_def)

theorem empty_allow_list_falls_through_witness:
  "allowedGroups default_groupSettings = []
   \<and> shouldRespondInGroup default_groupSettings family_group (message_from_ann ''hello'')
       = respondToAll default_groupSettings"
proof -
  have e: "allowedGroups default_groupSettings = []"
    by (simp add: default_groupSettings_def)
  show ?thesis
    using empty_allow_list_falls_through [OF e, of family_group "message_from_ann ''hello''"] e
    by (simp add: default_groupSettings_def)
qed

lemma find_admin_iff:
  "distinct (map participant_id ps) \<Longrightarrow>
   (case find (\<lambda>p. participant_id p = a) ps of None \<Rightarrow> False | Some p \<Rightarrow> isAdmin p)
     \<longleftrightarrow> a \<in> participant_id ` {p \<in> set ps. isAdmin p}"
  by (induction ps) (auto simp: image_iff)

lemma author_is_admin_adminIds:
  "distinct (map participant_id (participants c)) \<Longrightarrow>
   author_is_admin c m \<longleftrightarrow> author m \<in> adminIds c"
  unfolding author_is_admin_def adminIds_def by (rule find_admin_iff)

text \<open>
  C5. The gate evaluates one mode, the first of MentionOnly, AllowListOnly, AdminOnly,
  RespondToAll whose toggle is set, and answers by the rule of that mode alone; it denies
  when no toggle is set. With both \<open>respondOnlyWhenMentioned\<close> and \<open>respondToAll\<close> set, a
  message is allowed exactly when it mentions somebody.
\<close>

theorem gate_follows_precedence:
  "shouldRespondInGroup gs c m = spec_gate gs c m
   \<and> (respondOnlyWhenMentioned gs \<and> respondToAll gs \<longrightarrow>
        shouldRespondInGroup gs c m = (mentionedIds m \<noteq> []))"
  by (simp add: shouldRespondInGroup_def spec_gate_def precedence_def author_is_admin_def)

theorem gate_follows_precedence_witness:
  "respondOnlyWhenMentioned mention_and_all \<and> respondToAll mention_and_all
   \<and> \<not> shouldRespondInGroup mention_and_all family_group (message_from_ann ''hello'')
   \<and> shouldRespondInGroup mention_and_all family_group
        ((message_from_ann ''hello'')\<lparr>mentionedIds := [''490@c.us'']\<rparr>)"
proof -
  have t: "respondOnlyWhenMentioned mention_and_all \<and> respondToAll mention_and_all"
    by (simp add: mention_and_all_def default_groupSettings_def)
  have a: "mentionedIds (message_from_ann ''hello'') = []"
    by (simp add: message_from_ann_def)
  have b: "mentionedIds ((message_from_ann ''hello'')\<lparr>mentionedIds := [''490@c.us'']\<rparr>) \<noteq> []"
    by simp
  from gate_follows_precedence [of mention_and_all family_group "message_from_ann ''hello''"] t
  have 1: "shouldRespondInGroup mention_and_all family_group (message_from_ann ''hello'')
             = (mentionedIds (message_from_ann ''hello'') \<noteq> [])"
    by blast
  from gate_follows_precedence [of mention_and_all family_group
        "(message_from_ann ''hello'')\<lparr>mentionedIds := [''490@c.us'']\<rparr>"] t
  have 2: "shouldRespondInGroup mention_and_all family_group
             ((message_from_ann ''hello'')\<lparr>mentionedIds := [''490@c.us'']\<rparr>)
             = (mentionedIds ((message_from_ann ''hello'')\<lparr>mentionedIds := [''490@c.us'']\<rparr>) \<noteq> [])"
    by blast
  show ?thesis
    using t 1 2 a b by simp
qed

section \<open>Refreshing the table\<close>

text \<open>
  C6, as stated: a refresh does not mutate the table that readers hold, it installs a new
  one. The bot has one Map object for its whole life: after a first load a reader of
  \<open>this.responses\<close> holds the reference to it; a second load leaves the field pointing to
  the same object and changes what the object contains.
\<close>

theorem refresh_mutates_held_table:
  "responses (loadResponses (Resolved (Some farewell_sheet))
        (loadResponses (Resolved (Some greeting_sheet)) (new_bot default_config)))
     = responses (loadResponses (Resolved (Some greeting_sheet)) (new_bot default_config))
   \<and> heap (loadResponses (Resolved (Some greeting_sheet)) (new_bot default_config))
        (responses (loadResponses (Resolved (Some greeting_sheet)) (new_bot default_config)))
     = [(''hello'', ''Hi!'')]
   \<and> heap (loadResponses (Resolved (Some farewell_sheet))
          (loadResponses (Resolved (Some greeting_sheet)) (new_bot default_config)))
        (responses (loadResponses (Resolved (Some greeting_sheet)) (new_bot default_config)))
     = [(''bye'', ''Ciao'')]"
  by code_simp

text \<open>
  C6, amended: a refresh that fetched at least one row clears and refills the one Map of the
  bot in place, in the single run of \<open>loadResponses\<close> that follows the fetch. The field
  \<open>this.responses\<close> keeps its reference, no other object changes, and when the run is over
  the Map holds the rebuild of the fetched rows and nothing of what it held before; a lookup
  made after the run sees that table, a lookup made before it the old one.
\<close>

theorem refresh_refills_in_place:
  assumes "rows \<noteq> []"
  shows "responses (loadResponses (Resolved (Some rows)) st) = responses st
       \<and> config (loadResponses (Resolved (Some rows)) st) = config st
       \<and> this_responses (loadResponses (Resolved (Some rows)) st)
           = rebuild rows (hasHeader (config st))
       \<and> (\<forall>a. a \<noteq> responses st \<longrightarrow>
             heap (loadResponses (Resolved (Some rows)) st) a = heap st a)"
  using assms by (simp add: loadResponses_heap this_responses_def)

theorem refresh_refills_in_place_witness:
  "farewell_sheet \<noteq> []
   \<and> this_responses (loadResponses (Resolved (Some farewell_sheet))
        (loadResponses (Resolved (Some greeting_sheet)) (new_bot default_config)))
     = [(''bye'', ''Ciao'')]"
proof -
  have rows: "farewell_sheet \<noteq> []"
    by (simp add: farewell_sheet_def)
  have header: "hasHeader (config (loadResponses (Resolved (Some greeting_sheet)) (new_bot default_config)))"
    by code_simp
  have built: "rebuild farewell_sheet True = [(''bye'', ''Ciao'')]"
    by code_simp
  show ?thesis
    using refresh_refills_in_place [OF rows,
        of "loadResponses (Resolved (Some greeting_sheet)) (new_bot default_config)"]
      rows header built
    by simp
qed

section \<open>The default reply\<close>

text \<open>
  C8. Let a default reply be configured and let no keyword of the table occur in the
  normalized body of a message that is neither a status broadcast nor the bot's own. In a
  group that the gate lets through, with \<open>sendDefaultReplyInGroups\<close> false, nothing is
  sent; in a direct chat the same message is answered with the default reply.
\<close>

theorem default_reply_group_vs_direct:
  assumes "msg_from m \<noteq> ''status@broadcast''" and "\<not> fromMe m"
    and "defaultReply (config st) = Some d" and "d \<noteq> []"
    and "\<forall>(keyword, response) \<in> set (this_responses st).
           \<not> includes_str (trim (toLowerCase (body m))) keyword"
    and "isGroup g" and "shouldRespondInGroup (groupSettings (config st)) g m"
    and "\<not> sendDefaultReplyInGroups (groupSettings (config st))"
    and "\<not> isGroup dm"
  shows "handleMessage st now m ct g = Skipped NoMatchNoDefault
       \<and> handleMessage st now m ct dm = DefaultReplied d"
  using assms
  by (simp add: handleMessage_def lookupReply_no_match sendDefault_def shouldSendDefaultReply_def)

theorem default_reply_group_vs_direct_witness:
  "handleMessage (loadResponses (Resolved (Some cat_sheet)) (new_bot config_with_default))
      noon (message_from_ann ''hello'') ann family_group = Skipped NoMatchNoDefault
   \<and> handleMessage (loadResponses (Resolved (Some cat_sheet)) (new_bot config_with_default))
      noon (message_from_ann ''hello'') ann direct_chat = DefaultReplied ''Sorry, try again''"
proof -
  let ?st = "loadResponses (Resolved (Some cat_sheet)) (new_bot config_with_default)"
  let ?m = "message_from_ann ''hello''"
  have 1: "msg_from ?m \<noteq> ''status@broadcast''" by code_simp
  have 2: "\<not> fromMe ?m" by code_simp
  have 3: "defaultReply (config ?st) = Some ''Sorry, try again''" by code_simp
  have 4: "''Sorry, try again'' \<noteq> []" by simp
  have 5: "\<forall>(keyword, response) \<in> set (this_responses ?st).
             \<not> includes_str (trim (toLowerCase (body ?m))) keyword" by code_simp
  have 6: "isGroup family_group" by code_simp
  have 7: "shouldRespondInGroup (groupSettings (config ?st)) family_group ?m" by code_simp
  have 8: "\<not> sendDefaultReplyInGroups (groupSettings (config ?st))" by code_simp
  have 9: "\<not> isGroup direct_chat" by code_simp
  show ?thesis
    by (rule default_reply_group_vs_direct [OF 1 2 3 4 5 6 7 8 9])
qed

section \<open>Expanding a reply\<close>

lemma replace_from_absent:
  "\<not> includes_str s p \<Longrightarrow> replace_from p v b s = s"
  by (induction s arbitrary: b) auto

lemma replace_global_absent: "\<not> includes_str s p \<Longrightarrow> replace_global p v s = s"
  by (simp add: replace_global_def replace_from_absent)

lemma fold_replace_absent:
  "\<forall>(p, v) \<in> set reps. \<not> includes_str s p \<Longrightarrow>
   fold (\<lambda>(placeholder, val) processedReply. replace_global placeholder val processedReply)
     reps s = s"
  by (induction reps) (auto simp: replace_global_absent)

lemma getSubstitution_plain:
  "CHR 0x24 \<notin> set v \<Longrightarrow> getSubstitution m b a v = v"
  by (induction m b a v rule: getSubstitution.induct) auto

text \<open>
  C9, as stated: the placeholders are substituted in a single pass, the order of
  substitution does not matter, and a placeholder inside a substituted value is not
  substituted. The loop of \<open>processDynamicContent\<close> makes one pass for each placeholder over
  the result of the pass before. For the reply \<open>{message}\<close> and a direct message whose body
  is \<open>{group}\<close>, the pass for \<open>{message}\<close> puts the body in and the later pass for
  \<open>{group}\<close> replaces it: the reply sent is \<open>Direct Message\<close>; the same passes in the
  opposite order give \<open>{group}\<close>.
\<close>

theorem expansion_rescans_substituted_text:
  "processDynamicContent noon ''{message}'' ann (message_from_ann ''{group}'') direct_chat
     = ''Direct Message''
   \<and> fold (\<lambda>(placeholder, val) processedReply. replace_global placeholder val processedReply)
        (rev (replacements noon ann (message_from_ann ''{group}'') direct_chat)) ''{message}''
     = ''{group}''"
  by code_simp

text \<open>
  C9, amended: the expansion makes seven passes, for \<open>{name}\<close>, \<open>{time}\<close>, \<open>{date}\<close>,
  \<open>{phone}\<close>, \<open>{message}\<close>, \<open>{group}\<close>, \<open>{memberCount}\<close> in this order, each pass
  replacing every occurrence of its placeholder in the result of the pass before. So the
  text that an earlier pass puts in is scanned by the later passes: the body substituted for
  \<open>{message}\<close> has its \<open>{group}\<close> and \<open>{memberCount}\<close> replaced. A reply in which none
  of the seven placeholders occurs is returned as it is.
\<close>

theorem expansion_passes_in_order:
  "processDynamicContent now reply ct m c =
     replace_global ''{memberCount}'' (snd (replacements now ct m c ! 6))
      (replace_global ''{group}'' (snd (replacements now ct m c ! 5))
        (replace_global ''{message}'' (snd (replacements now ct m c ! 4))
          (replace_global ''{phone}'' (snd (replacements now ct m c ! 3))
            (replace_global ''{date}'' (snd (replacements now ct m c ! 2))
              (replace_global ''{time}'' (snd (replacements now ct m c ! 1))
                (replace_global ''{name}'' (snd (replacements now ct m c ! 0)) reply))))))
   \<and> processDynamicContent now ''{message}'' ct m c =
       replace_global ''{memberCount}''
         (if isGroup c then toString_nat (length (participants c)) else ''1'')
         (replace_global ''{group}'' (if isGroup c then chat_name c else ''Direct Message'')
            (getSubstitution ''{message}'' [] [] (body m)))
   \<and> ((\<forall>(placeholder, val) \<in> set (replacements now ct m c). \<not> includes_str reply placeholder)
        \<longrightarrow> processDynamicContent now reply ct m c = reply)"
proof -
  have "processDynamicContent now reply ct m c =
     replace_global ''{memberCount}'' (snd (replacements now ct m c ! 6))
      (replace_global ''{group}'' (snd (replacements now ct m c ! 5))
        (replace_global ''{message}'' (snd (replacements now ct m c ! 4))
          (replace_global ''{phone}'' (snd (replacements now ct m c ! 3))
            (replace_global ''{date}'' (snd (replacements now ct m c ! 2))
              (replace_global ''{time}'' (snd (replacements now ct m c ! 1))
                (replace_global ''{name}'' (snd (replacements now ct m c ! 0)) reply))))))"
    by (simp add: processDynamicContent_def replacements_def)
  moreover
  have "processDynamicContent now ''{message}'' ct m c =
       replace_global ''{memberCount}''
         (if isGroup c then toString_nat (length (participants c)) else ''1'')
         (replace_global ''{group}'' (if isGroup c then chat_name c else ''Direct Message'')
            (getSubstitution ''{message}'' [] [] (body m)))"
    by (simp add: processDynamicContent_def replacements_def replace_global_def)
  moreover
  have "processDynamicContent now reply ct m c = reply"
    if "\<forall>(placeholder, val) \<in> set (replacements now ct m c). \<not> includes_str reply placeholder"
    using that unfolding processDynamicContent_def by (rule fold_replace_absent)
  ultimately show ?thesis by blast
qed

theorem expansion_passes_in_order_witness:
  "processDynamicContent noon ''Hello {user}, {Name}!'' ann (message_from_ann ''hi'') direct_chat
     = ''Hello {user}, {Name}!''"
proof -
  have absent: "\<forall>(placeholder, val) \<in> set (replacements noon ann (message_from_ann ''hi'') direct_chat).
      \<not> includes_str ''Hello {user}, {Name}!'' placeholder"
    by code_simp
  from expansion_passes_in_order
         [of noon "''Hello {user}, {Name}!''" ann "message_from_ann ''hi''" direct_chat] absent
  show ?thesis
    by blast
qed

section \<open>A blank keyword\<close>

lemma trim_blank:
  assumes "\<forall>ch \<in> set keyword. isWhiteSpace ch"
  shows "trim (toLowerCase keyword) = []"
proof -
  have "\<forall>ch \<in> set (toLowerCase keyword). isWhiteSpace ch"
    using assms by (simp add: toLowerCase_def isWhiteSpace_toLowerCase_char)
  then have blank: "dropWhile isWhiteSpace (toLowerCase keyword) = []"
    by (metis dropWhile_eq_Nil_conv)
  show ?thesis unfolding trim_def blank by simp
qed

lemma partial_scan_blank_key:
  "map_of t [] = Some r \<Longrightarrow>
   \<forall>(k, v) \<in> set (takeWhile (\<lambda>(k, v). k \<noteq> []) t). \<not> includes_str b k \<Longrightarrow>
   partial_scan t b = Some r"
proof (induction t)
  case Nil
  then show ?case by simp
next
  case (Cons e t)
  obtain k v where e: "e = (k, v)" by (cases e)
  show ?case
  proof (cases "k = []")
    case True
    with Cons.prems(1) e have "v = r" by simp
    with True e show ?thesis by (simp add: includes_str_empty)
  next
    case False
    with Cons.prems e have "\<not> includes_str b k" and "map_of t [] = Some r"
      and "\<forall>(k, v) \<in> set (takeWhile (\<lambda>(k, v). k \<noteq> []) t). \<not> includes_str b k"
      by auto
    with Cons.IH e show ?thesis by simp
  qed
qed

text \<open>
  C10, as stated: once a row with a blank keyword and a non-empty reply cell has stored its
  reply under the empty key, every message without an exact match receives that reply. The
  scan stops at the first entry whose keyword the body includes, and an entry entered before
  the empty key can be that entry: after the rows \<open>cat, meow\<close> and
  \<open>(one space), fallback\<close> the body \<open>category\<close> has no exact match and is answered with
  \<open>meow\<close>. And a reply cell that is not empty can hold white space only: after the row
  \<open>(one space), (one space)\<close> the empty reply stands under the empty key, and the body
  \<open>dog\<close> is not answered.
\<close>

theorem blank_keyword_not_catch_all:
  "Map_get (this_responses (loadResponses (Resolved (Some blank_keyword_sheet))
        (new_bot default_config))) [] = Some ''fallback''
   \<and> Map_get (this_responses (loadResponses (Resolved (Some blank_keyword_sheet))
        (new_bot default_config))) ''category'' = None
   \<and> handleMessage (loadResponses (Resolved (Some blank_keyword_sheet)) (new_bot default_config))
        noon (message_from_ann ''category'') ann direct_chat = Replied ''meow''
   \<and> Map_get (this_responses (loadResponses (Resolved (Some blank_row_sheet))
        (new_bot default_config))) [] = Some []
   \<and> Map_get (this_responses (loadResponses (Resolved (Some blank_row_sheet))
        (new_bot default_config))) ''dog'' = None
   \<and> handleMessage (loadResponses (Resolved (Some blank_row_sheet)) (new_bot default_config))
        noon (message_from_ann ''dog'') ann direct_chat = Skipped NoMatchNoDefault"
  by code_simp

text \<open>
  C10, amended: a row whose keyword cell is not empty and holds white space only, and whose
  reply cell is not empty, is not skipped: its trimmed reply is stored under the empty key.
  While the table holds a reply that is not empty under the empty key, every message that
  reaches the lookup (neither a status broadcast nor the bot's own, and admitted by the gate
  in a group), has no exact match, and whose normalized body includes no keyword standing
  before the empty key in the table, is answered with that reply, expanded by
  \<open>processDynamicContent\<close>.
\<close>

theorem blank_keyword_catch_all:
  assumes "keyword \<noteq> []" and "\<forall>ch \<in> set keyword. isWhiteSpace ch" and "reply \<noteq> []"
  shows "load_row a (keyword # reply # rest) h = Map_set_at a [] (trim reply) h
       \<and> Map_get (this_responses
            (st0\<lparr>heap := load_row (responses st0) (keyword # reply # rest) (heap st0)\<rparr>)) []
           = Some (trim reply)
       \<and> (msg_from m \<noteq> ''status@broadcast'' \<and> \<not> fromMe m
            \<and> (isGroup c \<longrightarrow> shouldRespondInGroup (groupSettings (config st)) c m)
            \<and> Map_get (this_responses st) [] = Some r \<and> r \<noteq> []
            \<and> Map_get (this_responses st) (trim (toLowerCase (body m))) = None
            \<and> (\<forall>(k, v) \<in> set (takeWhile (\<lambda>(k, v). k \<noteq> []) (this_responses st)).
                  \<not> includes_str (trim (toLowerCase (body m))) k)
          \<longrightarrow> handleMessage st now m ct c = Replied (processDynamicContent now r ct m c))"
proof -
  have stored: "load_row a (keyword # reply # rest) h = Map_set_at a [] (trim reply) h" for a h
    using assms by (simp add: load_row_def cell_def trim_blank)
  have held: "Map_get (this_responses
            (st0\<lparr>heap := load_row (responses st0) (keyword # reply # rest) (heap st0)\<rparr>)) []
           = Some (trim reply)"
    by (simp add: stored this_responses_def Map_set_at_def Map_get_Map_set)
  have answered: "msg_from m \<noteq> ''status@broadcast'' \<and> \<not> fromMe m
            \<and> (isGroup c \<longrightarrow> shouldRespondInGroup (groupSettings (config st)) c m)
            \<and> Map_get (this_responses st) [] = Some r \<and> r \<noteq> []
            \<and> Map_get (this_responses st) (trim (toLowerCase (body m))) = None
            \<and> (\<forall>(k, v) \<in> set (takeWhile (\<lambda>(k, v). k \<noteq> []) (this_responses st)).
                  \<not> includes_str (trim (toLowerCase (body m))) k)
          \<longrightarrow> handleMessage st now m ct c = Replied (processDynamicContent now r ct m c)"
  proof
    assume g: "msg_from m \<noteq> ''status@broadcast'' \<and> \<not> fromMe m
            \<and> (isGroup c \<longrightarrow> shouldRespondInGroup (groupSettings (config st)) c m)
            \<and> Map_get (this_responses st) [] = Some r \<and> r \<noteq> []
            \<and> Map_get (this_responses st) (trim (toLowerCase (body m))) = None
            \<and> (\<forall>(k, v) \<in> set (takeWhile (\<lambda>(k, v). k \<noteq> []) (this_responses st)).
                  \<not> includes_str (trim (toLowerCase (body m))) k)"
    then have "partial_scan (this_responses st) (trim (toLowerCase (body m))) = Some r"
      by (simp add: partial_scan_blank_key Map_get_def)
    with g have "lookupReply (this_responses st) (trim (toLowerCase (body m))) = Some r"
      by (simp add: lookupReply_def truthy_def)
    with g show "handleMessage st now m ct c = Replied (processDynamicContent now r ct m c)"
      by (auto simp: handleMessage_def)
  qed
  show ?thesis
    by (intro conjI) (rule stored held answered)+
qed

theorem blank_keyword_catch_all_witness:
  "load_row 0 ['' '', ''fallback''] (\<lambda>a. [(''cat'', ''meow'')])
     = Map_set_at 0 [] ''fallback'' (\<lambda>a. [(''cat'', ''meow'')])
   \<and> this_responses (loadResponses (Resolved (Some blank_keyword_sheet)) (new_bot default_config))
     = [(''cat'', ''meow''), ([], ''fallback'')]
   \<and> handleMessage (loadResponses (Resolved (Some blank_keyword_sheet)) (new_bot default_config))
        noon (message_from_ann ''Dog'') ann direct_chat = Replied ''fallback''"
proof -
  let ?st = "loadResponses (Resolved (Some blank_keyword_sheet)) (new_bot default_config)"
  let ?m = "message_from_ann ''Dog''"
  have 1: "'' '' \<noteq> []" by simp
  have 2: "\<forall>ch \<in> set '' ''. isWhiteSpace ch" by (simp add: isWhiteSpace_def)
  have 3: "''fallback'' \<noteq> []" by simp
  have 4: "trim ''fallback'' = ''fallback''" by code_simp
  have t: "this_responses ?st = [(''cat'', ''meow''), ([], ''fallback'')]" by code_simp
  have 5: "msg_from ?m \<noteq> ''status@broadcast'' \<and> \<not> fromMe ?m
            \<and> (isGroup direct_chat \<longrightarrow> shouldRespondInGroup (groupSettings (config ?st)) direct_chat ?m)
            \<and> Map_get (this_responses ?st) [] = Some ''fallback'' \<and> ''fallback'' \<noteq> []
            \<and> Map_get (this_responses ?st) (trim (toLowerCase (body ?m))) = None
            \<and> (\<forall>(k, v) \<in> set (takeWhile (\<lambda>(k, v). k \<noteq> []) (this_responses ?st)).
                  \<not> includes_str (trim (toLowerCase (body ?m))) k)"
    by code_simp
  have e: "processDynamicContent noon ''fallback'' ann ?m direct_chat = ''fallback''"
    by code_simp
  note inst = blank_keyword_catch_all [OF 1 2 3, where a = 0 and rest = "[]"
       and h = "\<lambda>a. [(''cat'', ''meow'')]" and st0 = ?st and st = ?st and m = ?m
       and c = direct_chat and r = "''fallback''" and now = noon and ct = ann]
  have "load_row 0 ['' '', ''fallback''] (\<lambda>a. [(''cat'', ''meow'')])
     = Map_set_at 0 [] (trim ''fallback'') (\<lambda>a. [(''cat'', ''meow'')])"
    by (rule inst [THEN conjunct1])
  with 4 have row: "load_row 0 ['' '', ''fallback''] (\<lambda>a. [(''cat'', ''meow'')])
     = Map_set_at 0 [] ''fallback'' (\<lambda>a. [(''cat'', ''meow'')])"
    by simp
  from 5 have "handleMessage ?st noon ?m ann direct_chat
      = Replied (processDynamicContent noon ''fallback'' ann ?m direct_chat)"
    by (rule inst [THEN conjunct2, THEN conjunct2, THEN mp])
  with e have answered: "handleMessage ?st noon ?m ann direct_chat = Replied ''fallback''"
    by simp
  from row t answered show ?thesis by (intro conjI)
qed

end
